theory Spec2Isabelle
  imports Main
begin

section \<open>The thumbnail editor: edit history, chat log and submissions\<close>

text \<open>
  The component \<open>App\<close> keeps seven pieces of React state and has a handful of event
  handlers. Two handlers are asynchronous: \<open>handleInitialImageUpload\<close> awaits the
  file reader, \<open>handleEdit\<close> awaits the file reader (when a context image is attached)
  and then \<open>editImage\<close>. A handler is modelled as a function from the state to the new
  state; an asynchronous handler is split at its suspension: the part before the
  \<open>await\<close> returns the values the continuation has captured, and one function per
  outcome (fulfilled, rejected) is the rest of the \<open>try\<close>/\<open>catch\<close>/\<open>finally\<close>.
  The continuation reads \<open>historyStack\<close>, \<open>historyIndex\<close> and \<open>contextImage\<close> from the
  render in which the handler was called, so these are fields of the captured closure,
  while the functional updates \<open>setChatHistory(prev => ...)\<close> act on the state at the
  time the continuation runs.
\<close>

subsection \<open>Data\<close>

text \<open>\<open>interface ImageState\<close>.\<close>

record ImageState =
  imageUrl :: string
  mimeType :: string

text \<open>\<open>interface ChatMessage\<close> of \<open>types.ts\<close>; the optional fields are options.\<close>

datatype msg_type = UserMsg | BotMsg

record ChatMessage =
  msg_id :: string
  msg_type :: msg_type
  msg_prompt :: "string option"
  msg_imageUrl :: "string option"
  msg_mimeType :: "string option"
  msg_contextImageUrl :: "string option"

text \<open>What the handlers read of a browser \<open>File\<close>: its name and its MIME type.\<close>

record File =
  file_name :: string
  file_type :: string

text \<open>The value of the \<open>contextImage\<close> state when it is not \<open>null\<close>.\<close>

record ContextImage =
  ctx_file :: File
  ctx_url :: string
  ctx_mimeType :: string

text \<open>
  The seven \<open>useState\<close> cells, and two logs of the browser's object-URL store: the
  results of \<open>URL.createObjectURL\<close> and the arguments of \<open>URL.revokeObjectURL\<close>, in
  call order.
\<close>

record state =
  chatHistory :: "ChatMessage list"
  historyStack :: "ImageState list"
  historyIndex :: int
  contextImage :: "ContextImage option"
  prompt :: string
  isLoading :: bool
  error :: "string option"
  created :: "string list"
  revoked :: "string list"

definition initial :: state where
  "initial = \<lparr>chatHistory = [], historyStack = [], historyIndex = - 1,
     contextImage = None, prompt = [], isLoading = False, error = None,
     created = [], revoked = []\<rparr>"

text \<open>A value a promise is rejected with: an \<open>Error\<close> object with its message, or anything else.\<close>

datatype thrown = JsError string | NotAnError

text \<open>
  What the awaited work of \<open>handleEdit\<close> settles to: \<open>editImage\<close>'s result (\<open>newBase64\<close>,
  \<open>newMimeType\<close>), or the rejection of the context file's read or of \<open>editImage\<close>.
\<close>

datatype edit_outcome = Fulfilled string string | Rejected thrown

subsection \<open>JavaScript primitives\<close>

text \<open>\<open>xs[i]\<close>: \<open>undefined\<close> outside the array.\<close>

definition js_index :: "'a list \<Rightarrow> int \<Rightarrow> 'a option" where
  "js_index xs i = (if 0 \<le> i \<and> i < int (length xs) then Some (xs ! nat i) else None)"

text \<open>\<open>xs.slice(0, e)\<close>: a negative end counts from the end of the array.\<close>

definition js_slice0 :: "'a list \<Rightarrow> int \<Rightarrow> 'a list" where
  "js_slice0 xs e =
     (let n = int (length xs);
          k = (if e < 0 then max (n + e) 0 else min e n)
      in take (nat k) xs)"

text \<open>\<open>s.startsWith(p)\<close>.\<close>

definition startsWith :: "string \<Rightarrow> string \<Rightarrow> bool" where
  "startsWith s p = (take (length p) s = p)"

text \<open>
  \<open>s.trim()\<close>. A \<open>char\<close> is one code unit below 256; the white space and line
  terminators of ECMAScript in that range are TAB, LF, VT, FF, CR, SPACE and NBSP.
\<close>

definition js_whitespace :: "char \<Rightarrow> bool" where
  "js_whitespace c = (of_char c \<in> set [9, 10, 11, 12, 13, 32, 160 :: nat])"

definition trim :: "string \<Rightarrow> string" where
  "trim s = rev (dropWhile js_whitespace (rev (dropWhile js_whitespace s)))"

text \<open>The decimal digits of \<open>Date.now()\<close>, as a template literal prints them.\<close>

fun decimal :: "nat \<Rightarrow> string" where
  "decimal n = (if n < 10 then [''0123456789'' ! n]
                else decimal (n div 10) @ [''0123456789'' ! (n mod 10)])"

declare decimal.simps [simp del]

subsection \<open>Undo and redo\<close>

definition handleUndo :: "state \<Rightarrow> state" where
  "handleUndo s =
     (if historyIndex s > 0 then s\<lparr>historyIndex := historyIndex s - 1\<rparr> else s)"

definition handleRedo :: "state \<Rightarrow> state" where
  "handleRedo s =
     (if historyIndex s < int (length (historyStack s)) - 1
      then s\<lparr>historyIndex := historyIndex s + 1\<rparr> else s)"

definition canUndo :: "state \<Rightarrow> bool" where
  "canUndo s = (historyIndex s > 0)"

definition canRedo :: "state \<Rightarrow> bool" where
  "canRedo s = (historyIndex s < int (length (historyStack s)) - 1)"

text \<open>\<open>historyStack[historyIndex]\<close>, the image on display.\<close>

definition currentImage :: "state \<Rightarrow> ImageState option" where
  "currentImage s = js_index (historyStack s) (historyIndex s)"

subsection \<open>Uploading a base image\<close>

text \<open>
  \<open>handleInitialImageUpload\<close> up to its \<open>await\<close>. The argument is
  \<open>event.target.files?.[0]\<close>; the second component of the result is the file whose
  read the continuation waits for, if the handler got that far.
\<close>

definition handleInitialImageUpload :: "File option \<Rightarrow> state \<Rightarrow> state \<times> File option" where
  "handleInitialImageUpload fo s =
     (case fo of
        None \<Rightarrow> (s, None)
      | Some f \<Rightarrow>
          if \<not> startsWith (file_type f) ''image/''
          then (s\<lparr>error := Some ''Please upload a valid image file.''\<rparr>, None)
          else (s\<lparr>isLoading := True, error := None\<rparr>, Some f))"

text \<open>The rest of the \<open>try\<close> block and the \<open>finally\<close>, once the file is read.\<close>

definition upload_fulfilled :: "File \<Rightarrow> string \<Rightarrow> nat \<Rightarrow> state \<Rightarrow> state" where
  "upload_fulfilled f dataUrl now s =
     (let newImageState = \<lparr>imageUrl = dataUrl, mimeType = file_type f\<rparr>
      in s\<lparr>historyStack := [newImageState],
            historyIndex := 0,
            chatHistory := [\<lparr>msg_id = ''bot-'' @ decimal now, msg_type = BotMsg,
                             msg_prompt = None, msg_imageUrl = Some dataUrl,
                             msg_mimeType = Some (file_type f),
                             msg_contextImageUrl = None\<rparr>],
            prompt := [],
            contextImage := None,
            isLoading := False\<rparr>)"

text \<open>The \<open>catch\<close> block and the \<open>finally\<close>, when the read fails.\<close>

definition upload_rejected :: "state \<Rightarrow> state" where
  "upload_rejected s =
     s\<lparr>error := Some ''Failed to read the uploaded file.'', isLoading := False\<rparr>"

subsection \<open>The context image\<close>

text \<open>
  \<open>handleContextImageSelect\<close>; \<open>url\<close> is what \<open>URL.createObjectURL(file)\<close> returns
  when the handler calls it.
\<close>

definition handleContextImageSelect :: "File option \<Rightarrow> string \<Rightarrow> state \<Rightarrow> state" where
  "handleContextImageSelect fo url s =
     (case fo of
        None \<Rightarrow> s
      | Some f \<Rightarrow>
          if \<not> startsWith (file_type f) ''image/''
          then s\<lparr>error := Some ''Please upload a valid image file for context.''\<rparr>
          else s\<lparr>contextImage := Some \<lparr>ctx_file = f, ctx_url = url, ctx_mimeType = file_type f\<rparr>,
                 created := created s @ [url]\<rparr>)"

text \<open>The \<open>onClick\<close> of the button beside the context preview.\<close>

definition discardContext :: "state \<Rightarrow> state" where
  "discardContext s =
     s\<lparr>revoked := revoked s @ (case contextImage s of None \<Rightarrow> [] | Some c \<Rightarrow> [ctx_url c]),
       contextImage := None\<rparr>"

subsection \<open>Submitting an edit\<close>

text \<open>What the continuation of \<open>handleEdit\<close> has captured from the render it was called in.\<close>

record closure =
  c_historyStack :: "ImageState list"
  c_historyIndex :: int
  c_contextImage :: "ContextImage option"
  c_prompt :: string
  c_userMessage :: ChatMessage

text \<open>
  \<open>handleEdit\<close> up to its first \<open>await\<close>; \<open>now\<close> is the reading of \<open>Date.now()\<close>. The
  second component is the closure of an issued round trip, \<open>None\<close> when the handler
  returned early.
\<close>

definition handleEdit :: "nat \<Rightarrow> state \<Rightarrow> state \<times> closure option" where
  "handleEdit now s =
     (if currentImage s = None \<or> trim (prompt s) = []
      then (s\<lparr>error := Some ''Cannot edit without a base image and a prompt.''\<rparr>, None)
      else if isLoading s then (s, None)
      else
        let userMessage = \<lparr>msg_id = ''user-'' @ decimal now, msg_type = UserMsg,
                            msg_prompt = Some (prompt s), msg_imageUrl = None,
                            msg_mimeType = None,
                            msg_contextImageUrl = map_option ctx_url (contextImage s)\<rparr>
        in (s\<lparr>isLoading := True, error := None,
               chatHistory := chatHistory s @ [userMessage]\<rparr>,
            Some \<lparr>c_historyStack = historyStack s, c_historyIndex = historyIndex s,
                  c_contextImage = contextImage s, c_prompt = prompt s,
                  c_userMessage = userMessage\<rparr>))"

text \<open>The \<open>finally\<close> block; \<open>contextImage\<close> there is the captured one.\<close>

definition edit_finally :: "closure \<Rightarrow> state \<Rightarrow> state" where
  "edit_finally c s =
     s\<lparr>isLoading := False,
       prompt := [],
       revoked := revoked s @ (case c_contextImage c of None \<Rightarrow> [] | Some ci \<Rightarrow> [ctx_url ci]),
       contextImage := None\<rparr>"

text \<open>The image state built from \<open>editImage\<close>'s result.\<close>

definition newImage :: "string \<Rightarrow> string \<Rightarrow> ImageState" where
  "newImage newBase64 newMimeType =
     \<lparr>imageUrl = ''data:'' @ newMimeType @ '';base64,'' @ newBase64, mimeType = newMimeType\<rparr>"

text \<open>The rest of the \<open>try\<close> block after \<open>editImage\<close> has resolved, then the \<open>finally\<close>.\<close>

definition edit_fulfilled :: "closure \<Rightarrow> string \<Rightarrow> string \<Rightarrow> nat \<Rightarrow> state \<Rightarrow> state" where
  "edit_fulfilled c newBase64 newMimeType now s =
     (let newImageState = newImage newBase64 newMimeType;
          newBotMessage = \<lparr>msg_id = ''bot-'' @ decimal now, msg_type = BotMsg,
                            msg_prompt = None, msg_imageUrl = Some (imageUrl newImageState),
                            msg_mimeType = Some newMimeType, msg_contextImageUrl = None\<rparr>;
          newHistoryStack = js_slice0 (c_historyStack c) (c_historyIndex c + 1)
      in edit_finally c
           (s\<lparr>historyStack := newHistoryStack @ [newImageState],
              historyIndex := int (length newHistoryStack),
              chatHistory := chatHistory s @ [newBotMessage]\<rparr>))"

text \<open>The \<open>catch\<close> block, then the \<open>finally\<close>.\<close>

definition edit_rejected :: "closure \<Rightarrow> thrown \<Rightarrow> state \<Rightarrow> state" where
  "edit_rejected c err s =
     edit_finally c
       (s\<lparr>error := Some (case err of JsError m \<Rightarrow> m
                                      | NotAnError \<Rightarrow> ''An unknown error occurred.''),
          chatHistory := filter (\<lambda>msg. msg_id msg \<noteq> msg_id (c_userMessage c)) (chatHistory s)\<rparr>)"

definition edit_settled :: "closure \<Rightarrow> edit_outcome \<Rightarrow> nat \<Rightarrow> state \<Rightarrow> state" where
  "edit_settled c r now s =
     (case r of Fulfilled b m \<Rightarrow> edit_fulfilled c b m now s
              | Rejected err \<Rightarrow> edit_rejected c err s)"

subsection \<open>The component as an event system\<close>

text \<open>
  The state, together with the continuations that are waiting: one closure for each
  \<open>handleEdit\<close> whose awaited work has not settled, one file for each upload whose
  read has not settled.
\<close>

record sys =
  app :: state
  edits :: "closure list"
  uploads :: "File list"

definition sys_initial :: sys where
  "sys_initial = \<lparr>app = initial, edits = [], uploads = []\<rparr>"

text \<open>
  What can happen: the user's actions, and the settling of a pending continuation
  (chosen by its position in the list). \<open>Date.now()\<close> and \<open>URL.createObjectURL\<close> are
  read from the environment, so their values come with the event.
\<close>

datatype event =
    InitialImageUpload "File option"
  | UploadRead nat "string option" nat
  | ContextImageSelect "File option" string
  | DiscardContext
  | PromptChange string
  | Submit nat
  | EditSettled nat edit_outcome nat
  | Undo
  | Redo

definition remove_nth :: "nat \<Rightarrow> 'a list \<Rightarrow> 'a list" where
  "remove_nth k xs = take k xs @ drop (Suc k) xs"

fun step :: "event \<Rightarrow> sys \<Rightarrow> sys" where
  "step (InitialImageUpload fo) y =
     (case handleInitialImageUpload fo (app y) of
        (s, None) \<Rightarrow> y\<lparr>app := s\<rparr>
      | (s, Some f) \<Rightarrow> y\<lparr>app := s, uploads := uploads y @ [f]\<rparr>)"
| "step (UploadRead k r now) y =
     (if k < length (uploads y)
      then y\<lparr>app := (case r of Some dataUrl \<Rightarrow> upload_fulfilled (uploads y ! k) dataUrl now (app y)
                               | None \<Rightarrow> upload_rejected (app y)),
             uploads := remove_nth k (uploads y)\<rparr>
      else y)"
| "step (ContextImageSelect fo url) y = y\<lparr>app := handleContextImageSelect fo url (app y)\<rparr>"
| "step DiscardContext y = y\<lparr>app := discardContext (app y)\<rparr>"
| "step (PromptChange p) y = y\<lparr>app := (app y)\<lparr>prompt := p\<rparr>\<rparr>"
| "step (Submit now) y =
     (case handleEdit now (app y) of
        (s, None) \<Rightarrow> y\<lparr>app := s\<rparr>
      | (s, Some c) \<Rightarrow> y\<lparr>app := s, edits := edits y @ [c]\<rparr>)"
| "step (EditSettled k r now) y =
     (if k < length (edits y)
      then y\<lparr>app := edit_settled (edits y ! k) r now (app y),
             edits := remove_nth k (edits y)\<rparr>
      else y)"
| "step Undo y = y\<lparr>app := handleUndo (app y)\<rparr>"
| "step Redo y = y\<lparr>app := handleRedo (app y)\<rparr>"

definition run :: "sys \<Rightarrow> event list \<Rightarrow> sys" where
  "run y es = foldl (\<lambda>z e. step e z) y es"

text \<open>
  Which events the rendered page lets through in a state: the \<open>disabled\<close> attributes
  of the controls, the \<open>!isLoading\<close> of the Enter key, and the parts of the page that
  are rendered only when \<open>currentImageUrl\<close> or \<open>contextImage\<close> is set. The controls that
  start an upload carry no condition.
\<close>

fun enabled :: "sys \<Rightarrow> event \<Rightarrow> bool" where
  "enabled y (InitialImageUpload fo) = True"
| "enabled y (UploadRead k r now) = (k < length (uploads y))"
| "enabled y (ContextImageSelect fo url) =
     (\<not> (historyStack (app y) = [] \<or> isLoading (app y)))"
| "enabled y DiscardContext = (contextImage (app y) \<noteq> None)"
| "enabled y (PromptChange p) = (\<not> (historyStack (app y) = [] \<or> isLoading (app y)))"
| "enabled y (Submit now) = (\<not> (historyStack (app y) = [] \<or> isLoading (app y)))"
| "enabled y (EditSettled k r now) = (k < length (edits y))"
| "enabled y Undo =
     ((case currentImage (app y) of None \<Rightarrow> False | Some i \<Rightarrow> imageUrl i \<noteq> [])
      \<and> canUndo (app y))"
| "enabled y Redo =
     ((case currentImage (app y) of None \<Rightarrow> False | Some i \<Rightarrow> imageUrl i \<noteq> [])
      \<and> canRedo (app y))"

text \<open>A run through the page: \<open>None\<close> as soon as an event is not enabled.\<close>

fun ui_run :: "sys \<Rightarrow> event list \<Rightarrow> sys option" where
  "ui_run y [] = Some y"
| "ui_run y (e # es) = (if enabled y e then ui_run (step e y) es else None)"

text \<open>Whether a run contains an upload whose read succeeded (a reset of the history).\<close>

fun reset_happened :: "sys \<Rightarrow> event list \<Rightarrow> bool" where
  "reset_happened y [] = False"
| "reset_happened y (e # es) =
     ((case e of UploadRead k (Some dataUrl) now \<Rightarrow> k < length (uploads y) | _ \<Rightarrow> False)
      \<or> reset_happened (step e y) es)"

subsection \<open>Well-formed histories\<close>

text \<open>
  The data model's condition on a history: empty with the cursor at its initial value,
  or the cursor on an element. A closure is well formed when the cursor it captured is
  on an element of the stack it captured, which is what the guard of \<open>handleEdit\<close>
  has checked.
\<close>

definition hist_ok :: "ImageState list \<Rightarrow> int \<Rightarrow> bool" where
  "hist_ok xs i = ((xs = [] \<and> i = - 1) \<or> (0 \<le> i \<and> i < int (length xs)))"

definition closure_ok :: "closure \<Rightarrow> bool" where
  "closure_ok c = (0 \<le> c_historyIndex c \<and> c_historyIndex c < int (length (c_historyStack c)))"

definition sys_inv :: "sys \<Rightarrow> bool" where
  "sys_inv y =
     (hist_ok (historyStack (app y)) (historyIndex (app y))
      \<and> (\<forall>c \<in> set (edits y). closure_ok c)
      \<and> (historyStack (app y) = [] \<longrightarrow> edits y = []))"

text \<open>The ids of the transcript, in order.\<close>

definition chat_ids :: "sys \<Rightarrow> string list" where
  "chat_ids y = map msg_id (chatHistory (app y))"

subsection \<open>Object URLs in use\<close>

text \<open>
  The object URLs that some handler can still revoke: the one of the attached context
  image and those captured by the waiting closures. An event \<open>attaches\<close> a URL when it is
  a context selection for which \<open>URL.createObjectURL\<close> returns that URL.
\<close>

definition url_of :: "ContextImage option \<Rightarrow> string set" where
  "url_of co = (case co of None \<Rightarrow> {} | Some c \<Rightarrow> {ctx_url c})"

definition held :: "sys \<Rightarrow> string set" where
  "held y =
     url_of (contextImage (app y)) \<union> (\<Union>c \<in> set (edits y). url_of (c_contextImage c))"

fun attaches :: "string \<Rightarrow> event \<Rightarrow> bool" where
  "attaches u (ContextImageSelect fo url) = (url = u)"
| "attaches u e = False"

subsection \<open>Concrete files, images, states and runs\<close>

definition png :: File where
  "png = \<lparr>file_name = ''a.png'', file_type = ''image/png''\<rparr>"

definition jpg :: File where
  "jpg = \<lparr>file_name = ''b.jpg'', file_type = ''image/jpeg''\<rparr>"


definition imgA :: ImageState where
  "imgA = \<lparr>imageUrl = ''data:image/png;base64,AAAA'', mimeType = ''image/png''\<rparr>"

definition imgB :: ImageState where
  "imgB = \<lparr>imageUrl = ''data:image/png;base64,BBBB'', mimeType = ''image/png''\<rparr>"

definition imgC :: ImageState where
  "imgC = \<lparr>imageUrl = ''data:image/png;base64,CCCC'', mimeType = ''image/png''\<rparr>"

text \<open>Versions \<open>[A, B, C]\<close> with the cursor on \<open>C\<close> and a prompt typed.\<close>

definition three_versions :: state where
  "three_versions =
     initial\<lparr>historyStack := [imgA, imgB, imgC], historyIndex := 2, prompt := ''make it blue''\<rparr>"

text \<open>The state after the upload of \<open>A\<close>, with a prompt typed.\<close>

definition one_version :: state where
  "one_version =
     initial\<lparr>historyStack := [imgA], historyIndex := 0, prompt := ''make it blue'',
       chatHistory := [\<lparr>msg_id = ''bot-1'', msg_type = BotMsg, msg_prompt = None,
          msg_imageUrl = Some (imageUrl imgA), msg_mimeType = Some (mimeType imgA),
          msg_contextImageUrl = None\<rparr>]\<rparr>"

text \<open>The same with a context image attached.\<close>

definition with_context :: state where
  "with_context =
     one_version\<lparr>contextImage :=
       Some \<lparr>ctx_file = png, ctx_url = ''blob:1'', ctx_mimeType = ''image/png''\<rparr>\<rparr>"


text \<open>An upload, one successful edit, then an undo.\<close>

definition edit_then_undo :: "event list" where
  "edit_then_undo =
     [InitialImageUpload (Some png), UploadRead 0 (Some ''data:image/png;base64,AAAA'') 1,
      PromptChange ''make it blue'', Submit 5,
      EditSettled 0 (Fulfilled ''BBBB'' ''image/png'') 9, Undo]"

text \<open>
  An upload and one successful edit submitted when the clock read 5; then a second
  submission for which the clock reads 5 again, and which fails.
\<close>

definition dup_before :: "event list" where
  "dup_before =
     [InitialImageUpload (Some png), UploadRead 0 (Some ''data:image/png;base64,AAAA'') 1,
      PromptChange ''make it blue'', Submit 5,
      EditSettled 0 (Fulfilled ''BBBB'' ''image/png'') 9,
      PromptChange ''make it red'']"

definition dup_failed :: "event list" where
  "dup_failed =
     dup_before @ [Submit 5, EditSettled 0 (Rejected (JsError ''Failed to edit image: 500'')) 5]"

text \<open>A context image attached over one that is still attached, then discarded.\<close>

definition leak_trace :: "event list" where
  "leak_trace =
     [InitialImageUpload (Some png), UploadRead 0 (Some ''data:image/png;base64,AAAA'') 1,
      ContextImageSelect (Some png) ''blob:1'', ContextImageSelect (Some jpg) ''blob:2'',
      DiscardContext]"

text \<open>A context image discarded while the submission that carries it is in flight.\<close>

definition double_trace :: "event list" where
  "double_trace =
     [InitialImageUpload (Some png), UploadRead 0 (Some ''data:image/png;base64,AAAA'') 1,
      ContextImageSelect (Some png) ''blob:1'', PromptChange ''make it blue'', Submit 5,
      DiscardContext, EditSettled 0 (Fulfilled ''BBBB'' ''image/png'') 9]"

text \<open>A new base image uploaded while a submission is in flight, then a second submission.\<close>

definition two_calls_before :: "event list" where
  "two_calls_before =
     [InitialImageUpload (Some png), UploadRead 0 (Some ''data:image/png;base64,AAAA'') 1,
      PromptChange ''make it blue'', Submit 5,
      InitialImageUpload (Some jpg), UploadRead 0 (Some ''data:image/jpeg;base64,JJJJ'') 7,
      PromptChange ''make it red'']"

definition two_calls_trace :: "event list" where
  "two_calls_trace = two_calls_before @ [Submit 9]"


text \<open>
  An upload and one successful edit, then a second submission, an undo while its call
  is in flight, and the call's success.
\<close>

definition stale_before :: "event list" where
  "stale_before =
     [InitialImageUpload (Some png), UploadRead 0 (Some ''data:image/png;base64,AAAA'') 1,
      PromptChange ''make it blue'', Submit 5,
      EditSettled 0 (Fulfilled ''BBBB'' ''image/png'') 9,
      PromptChange ''make it red'', Submit 11, Undo]"

definition stale_trace :: "event list" where
  "stale_trace = stale_before @ [EditSettled 0 (Fulfilled ''CCCC'' ''image/png'') 15]"


section \<open>Auxiliary facts\<close>

lemmas eval_defs =
  sys_initial_def initial_def handleInitialImageUpload_def startsWith_def
  upload_fulfilled_def upload_rejected_def handleEdit_def currentImage_def js_index_def
  trim_def js_whitespace_def edit_settled_def edit_fulfilled_def edit_rejected_def
  edit_finally_def newImage_def js_slice0_def remove_nth_def handleUndo_def handleRedo_def
  canUndo_def canRedo_def handleContextImageSelect_def discardContext_def Let_def
  decimal.simps

lemma run_Nil [simp]: "run y [] = y"
  by (simp add: run_def)

lemma run_Cons [simp]: "run y (e # es) = run (step e y) es"
  by (simp add: run_def)

lemma run_append: "run y (es @ fs) = run (run y es) fs"
  by (simp add: run_def)

lemma ui_run_is_run: "ui_run y es = Some z \<Longrightarrow> z = run y es"
  by (induction es arbitrary: y) (auto split: if_splits)

lemma set_remove_nth: "set (remove_nth k xs) \<subseteq> set xs"
  unfolding remove_nth_def by (auto dest: in_set_takeD in_set_dropD)

lemma filter_fresh: "\<forall>m \<in> set xs. f m \<noteq> a \<Longrightarrow> filter (\<lambda>m. f m \<noteq> a) xs = xs"
  by (induction xs) auto

lemma trim_blue: "trim ''make it blue'' = ''make it blue''"
  by (simp add: trim_def js_whitespace_def)

subsection \<open>What the guard of \<open>handleEdit\<close> lets through\<close>

lemma handleEdit_accepts:
  assumes "0 \<le> historyIndex s" and "historyIndex s < int (length (historyStack s))"
      and "trim (prompt s) \<noteq> []" and "\<not> isLoading s"
  shows "handleEdit now s =
     (s\<lparr>isLoading := True, error := None,
        chatHistory := chatHistory s @
          [\<lparr>msg_id = ''user-'' @ decimal now, msg_type = UserMsg,
            msg_prompt = Some (prompt s), msg_imageUrl = None, msg_mimeType = None,
            msg_contextImageUrl = map_option ctx_url (contextImage s)\<rparr>]\<rparr>,
      Some \<lparr>c_historyStack = historyStack s, c_historyIndex = historyIndex s,
            c_contextImage = contextImage s, c_prompt = prompt s,
            c_userMessage = \<lparr>msg_id = ''user-'' @ decimal now, msg_type = UserMsg,
               msg_prompt = Some (prompt s), msg_imageUrl = None, msg_mimeType = None,
               msg_contextImageUrl = map_option ctx_url (contextImage s)\<rparr>\<rparr>)"
  using assms by (simp add: handleEdit_def currentImage_def js_index_def Let_def)

lemma handleEdit_Some:
  "handleEdit now s = (s1, Some c) \<Longrightarrow>
     closure_ok c \<and> historyStack s \<noteq> [] \<and> historyStack s1 = historyStack s
     \<and> historyIndex s1 = historyIndex s"
  by (auto simp: handleEdit_def currentImage_def js_index_def closure_ok_def Let_def
      split: if_splits)

lemma handleEdit_None:
  "handleEdit now s = (s1, None) \<Longrightarrow>
     historyStack s1 = historyStack s \<and> historyIndex s1 = historyIndex s"
  by (auto simp: handleEdit_def Let_def split: if_splits)

text \<open>
  With the loading flag set, \<open>handleEdit\<close> registers no closure and appends nothing;
  it changes the state only when the first guard sets the error message.
\<close>

lemma handleEdit_while_loading:
  assumes "isLoading s"
  shows "snd (handleEdit now s) = None"
    and "chatHistory (fst (handleEdit now s)) = chatHistory s"
    and "currentImage s \<noteq> None \<Longrightarrow> trim (prompt s) \<noteq> [] \<Longrightarrow> fst (handleEdit now s) = s"
  using assms by (auto simp: handleEdit_def)

lemma upload_hist:
  "handleInitialImageUpload fo s = (s1, r) \<Longrightarrow>
     historyStack s1 = historyStack s \<and> historyIndex s1 = historyIndex s"
  by (auto simp: handleInitialImageUpload_def split: option.splits if_splits)

subsection \<open>The commit of a well-formed closure\<close>

lemma slice_closure:
  "closure_ok c \<Longrightarrow>
     js_slice0 (c_historyStack c) (c_historyIndex c + 1)
       = take (nat (c_historyIndex c) + 1) (c_historyStack c)
     \<and> length (js_slice0 (c_historyStack c) (c_historyIndex c + 1)) = nat (c_historyIndex c) + 1"
  by (auto simp: closure_ok_def js_slice0_def Let_def min_def nat_add_distrib)

lemma edit_settled_hist:
  "closure_ok c \<Longrightarrow> hist_ok (historyStack s) (historyIndex s) \<Longrightarrow>
     hist_ok (historyStack (edit_settled c r now s)) (historyIndex (edit_settled c r now s))"
  by (cases r)
     (auto simp: edit_settled_def edit_fulfilled_def edit_rejected_def edit_finally_def
        Let_def hist_ok_def slice_closure)

lemma edit_settled_nonempty:
  "historyStack s \<noteq> [] \<Longrightarrow> historyStack (edit_settled c r now s) \<noteq> []"
  by (cases r)
     (auto simp: edit_settled_def edit_fulfilled_def edit_rejected_def edit_finally_def Let_def)

lemma undo_iter:
  "0 \<le> historyIndex s \<Longrightarrow> historyIndex s < int (length (historyStack s)) \<Longrightarrow>
     (handleUndo ^^ n) s = s\<lparr>historyIndex := max 0 (historyIndex s - int n)\<rparr>"
proof (induction n)
  case 0
  then show ?case by simp
next
  case (Suc n)
  then show ?case by (auto simp: handleUndo_def max_def)
qed

subsection \<open>The invariant of the event system\<close>

lemma inv_initial: "sys_inv sys_initial"
  by (simp add: sys_inv_def sys_initial_def initial_def hist_ok_def)

lemma inv_step:
  assumes "sys_inv y"
  shows "sys_inv (step e y)"
proof (cases e)
  case (InitialImageUpload fo)
  with assms show ?thesis
    by (auto simp: sys_inv_def split: prod.splits option.splits dest!: upload_hist)
next
  case (UploadRead k r now)
  with assms show ?thesis
    by (auto simp: sys_inv_def upload_fulfilled_def upload_rejected_def hist_ok_def
        split: option.splits dest: subsetD[OF set_remove_nth])
next
  case (ContextImageSelect fo url)
  with assms show ?thesis
    by (auto simp: sys_inv_def handleContextImageSelect_def split: option.splits)
next
  case DiscardContext
  with assms show ?thesis by (auto simp: sys_inv_def discardContext_def)
next
  case (PromptChange p)
  with assms show ?thesis by (auto simp: sys_inv_def)
next
  case (Submit now)
  with assms show ?thesis
    by (auto simp: sys_inv_def split: prod.splits option.splits
        dest!: handleEdit_Some handleEdit_None)
next
  case (EditSettled k r now)
  with assms show ?thesis
    by (auto simp: sys_inv_def edit_settled_hist edit_settled_nonempty
        dest: subsetD[OF set_remove_nth])
next
  case Undo
  with assms show ?thesis by (auto simp: sys_inv_def handleUndo_def hist_ok_def)
next
  case Redo
  with assms show ?thesis by (auto simp: sys_inv_def handleRedo_def hist_ok_def)
qed

lemma inv_run: "sys_inv y \<Longrightarrow> sys_inv (run y es)"
  by (induction es arbitrary: y) (auto simp: inv_step)

text \<open>The history is empty after a step exactly when it was empty and the step is no reset.\<close>

lemma step_empty_iff:
  assumes "sys_inv y"
  shows "(historyStack (app (step e y)) = []) =
     (historyStack (app y) = []
      \<and> \<not> (case e of UploadRead k (Some dataUrl) now \<Rightarrow> k < length (uploads y) | _ \<Rightarrow> False))"
proof (cases e)
  case (InitialImageUpload fo)
  then show ?thesis by (auto split: prod.splits option.splits dest!: upload_hist)
next
  case (UploadRead k r now)
  then show ?thesis
    by (auto simp: upload_fulfilled_def upload_rejected_def split: option.splits)
next
  case (ContextImageSelect fo url)
  then show ?thesis by (auto simp: handleContextImageSelect_def split: option.splits)
next
  case DiscardContext
  then show ?thesis by (auto simp: discardContext_def)
next
  case (PromptChange p)
  then show ?thesis by auto
next
  case (Submit now)
  then show ?thesis
    by (auto split: prod.splits option.splits dest!: handleEdit_Some handleEdit_None)
next
  case (EditSettled k r now)
  with assms show ?thesis by (auto simp: sys_inv_def edit_settled_nonempty)
next
  case Undo
  then show ?thesis by (auto simp: handleUndo_def)
next
  case Redo
  then show ?thesis by (auto simp: handleRedo_def)
qed

lemma run_empty_iff:
  "sys_inv y \<Longrightarrow>
     (historyStack (app (run y es)) = [])
       = (historyStack (app y) = [] \<and> \<not> reset_happened y es)"
proof (induction es arbitrary: y)
  case Nil
  then show ?case by simp
next
  case (Cons e es)
  have "sys_inv (step e y)" using Cons.prems by (rule inv_step)
  from Cons.IH[OF this] step_empty_iff[OF Cons.prems, of e]
  show ?case by auto
qed

subsection \<open>A URL that nothing holds is never revoked\<close>

lemma handleEdit_ctx:
  "handleEdit now s = (s1, r) \<Longrightarrow>
     contextImage s1 = contextImage s \<and> revoked s1 = revoked s
     \<and> (\<forall>c. r = Some c \<longrightarrow> c_contextImage c = contextImage s)"
  by (auto simp: handleEdit_def Let_def split: if_splits)

lemma upload_ctx:
  "handleInitialImageUpload fo s = (s1, r) \<Longrightarrow>
     contextImage s1 = contextImage s \<and> revoked s1 = revoked s"
  by (auto simp: handleInitialImageUpload_def split: option.splits if_splits)

lemma edit_settled_ctx:
  "contextImage (edit_settled c r now s) = None
   \<and> revoked (edit_settled c r now s)
       = revoked s @ (case c_contextImage c of None \<Rightarrow> [] | Some ci \<Rightarrow> [ctx_url ci])"
  by (cases r)
     (simp_all add: edit_settled_def edit_fulfilled_def edit_rejected_def edit_finally_def Let_def)

lemma leak_step:
  assumes "u \<notin> held y" and "\<not> attaches u e"
  shows "u \<notin> held (step e y)
     \<and> count_list (revoked (app (step e y))) u = count_list (revoked (app y)) u"
proof (cases e)
  case (InitialImageUpload fo)
  with assms show ?thesis
    by (auto simp: held_def split: prod.splits option.splits dest!: upload_ctx)
next
  case (UploadRead k r now)
  with assms show ?thesis
    by (auto simp: held_def url_of_def upload_fulfilled_def upload_rejected_def
        split: option.splits dest: subsetD[OF set_remove_nth])
next
  case (ContextImageSelect fo url)
  with assms show ?thesis
    by (auto simp: held_def url_of_def handleContextImageSelect_def split: option.splits)
next
  case DiscardContext
  with assms show ?thesis
    by (auto simp: held_def url_of_def discardContext_def split: option.splits)
next
  case (PromptChange p)
  with assms show ?thesis by (auto simp: held_def)
next
  case (Submit now)
  with assms show ?thesis
    by (auto simp: held_def split: prod.splits option.splits dest!: handleEdit_ctx)
next
  case (EditSettled k r now)
  show ?thesis
  proof (cases "k < length (edits y)")
    case True
    then have "edits y ! k \<in> set (edits y)" by simp
    with assms(1) have n: "u \<notin> url_of (c_contextImage (edits y ! k))"
      by (auto simp: held_def)
    from assms(1) have o: "\<forall>c \<in> set (remove_nth k (edits y)). u \<notin> url_of (c_contextImage c)"
      using set_remove_nth[of k "edits y"] by (auto simp: held_def)
    from True n o EditSettled show ?thesis
      by (auto simp: held_def edit_settled_ctx url_of_def split: option.splits)
  next
    case False
    with assms EditSettled show ?thesis by simp
  qed
next
  case Undo
  with assms show ?thesis by (auto simp: held_def handleUndo_def)
next
  case Redo
  with assms show ?thesis by (auto simp: held_def handleRedo_def)
qed

text \<open>
  Once no handler holds a URL, no run revokes it, unless \<open>URL.createObjectURL\<close>
  hands out the same URL again.
\<close>

lemma leak_permanent:
  "u \<notin> held y \<Longrightarrow> \<forall>e \<in> set es. \<not> attaches u e \<Longrightarrow>
     u \<notin> held (run y es)
     \<and> count_list (revoked (app (run y es))) u = count_list (revoked (app y)) u"
proof (induction es arbitrary: y)
  case Nil
  then show ?case by simp
next
  case (Cons e es)
  from Cons.prems have s: "u \<notin> held (step e y)"
       "count_list (revoked (app (step e y))) u = count_list (revoked (app y)) u"
    using leak_step[of u y e] by auto
  from Cons.IH[OF s(1)] Cons.prems(2) s(2) show ?case by simp
qed

lemma leak_trace_state:
  "''blob:1'' \<notin> held (run sys_initial leak_trace)
   \<and> count_list (revoked (app (run sys_initial leak_trace))) ''blob:1'' = 0"
  by (simp add: leak_trace_def held_def url_of_def png_def jpg_def eval_defs)

text \<open>However the run \<open>leak_trace\<close> goes on, \<open>blob:1\<close> is never revoked.\<close>

lemma leak_trace_forever:
  assumes "\<forall>e \<in> set es. \<not> attaches ''blob:1'' e"
  shows "count_list (revoked (app (run sys_initial (leak_trace @ es)))) ''blob:1'' = 0"
  using leak_permanent[OF conjunct1[OF leak_trace_state] assms] leak_trace_state
  by (simp add: run_append)

subsection \<open>The commit reads the closure\<close>

text \<open>
  The versions and the cursor after a successful edit are computed from the closure
  alone: the state in which the continuation runs contributes neither.
\<close>

lemma commit_from_closure:
  assumes "closure_ok c"
  shows "historyStack (edit_fulfilled c b m now z)
           = take (nat (c_historyIndex c) + 1) (c_historyStack c) @ [newImage b m]"
    and "historyIndex (edit_fulfilled c b m now z) = c_historyIndex c + 1"
  using slice_closure[OF assms] assms
  by (auto simp: edit_fulfilled_def edit_finally_def Let_def closure_ok_def min_def)

section \<open>The edit history\<close>

text \<open>
  C1, evaluated at the failing run. The run \<open>stale_trace\<close> goes through the page: the
  undo and redo buttons stay enabled while a call is in flight. Before its last event
  the versions are \<open>[A, B]\<close> and the undo has moved the cursor to 0, so a commit of \<open>C\<close>
  that truncates to the prefix up to the cursor gives \<open>[A, C]\<close> with cursor 1. The
  continuation computes the commit from the versions and the cursor of the render in
  which \<open>handleEdit\<close> was called (cursor 1): it leaves \<open>[A, B, C]\<close> with cursor 2.
\<close>

theorem stale_commit_after_undo:
  "ui_run sys_initial stale_trace = Some (run sys_initial stale_trace)
   \<and> historyStack (app (run sys_initial stale_before)) = [imgA, imgB]
   \<and> historyIndex (app (run sys_initial stale_before)) = 0
   \<and> historyStack (app (run sys_initial stale_trace)) = [imgA, imgB, imgC]
   \<and> historyIndex (app (run sys_initial stale_trace)) = 2
   \<and> historyStack (app (run sys_initial stale_trace)) \<noteq> [imgA, imgC]"
  by (simp add: stale_trace_def stale_before_def png_def imgA_def imgB_def imgC_def eval_defs)

text \<open>
  What does hold. Take a history with versions and the cursor on one of them, a prompt
  that is not blank and no loading in progress, and let \<open>u\<close> be the state after any
  number of undos. A submission made in \<open>u\<close> whose continuation runs in the state the
  handler has left, with no other handler in between, leaves as versions the prefix of
  the old versions up to and including the cursor of \<open>u\<close>, followed by the new version;
  the cursor is the new last index; \<open>canRedo\<close> is false and \<open>handleRedo\<close> changes
  nothing. The instance at versions \<open>[A, B, C]\<close>, cursor 2 and one undo gives versions
  \<open>[A, B, D]\<close>, cursor 2.
\<close>

lemma commit_after_undo:
  assumes "historyStack s \<noteq> []"
      and "0 \<le> historyIndex s" and "historyIndex s < int (length (historyStack s))"
      and "trim (prompt s) \<noteq> []" and "\<not> isLoading s"
      and "u = (handleUndo ^^ n) s"
  shows "\<exists>s1 c. handleEdit now u = (s1, Some c)
     \<and> historyStack (edit_fulfilled c b m now' s1)
         = take (nat (historyIndex u) + 1) (historyStack s) @ [newImage b m]
     \<and> historyIndex (edit_fulfilled c b m now' s1)
         = int (length (historyStack (edit_fulfilled c b m now' s1))) - 1
     \<and> \<not> canRedo (edit_fulfilled c b m now' s1)
     \<and> handleRedo (edit_fulfilled c b m now' s1) = edit_fulfilled c b m now' s1"
proof -
  have u: "u = s\<lparr>historyIndex := max 0 (historyIndex s - int n)\<rparr>"
    using assms(2,3,6) by (simp add: undo_iter)
  have ok: "0 \<le> historyIndex u" "historyIndex u < int (length (historyStack u))"
       "trim (prompt u) \<noteq> []" "\<not> isLoading u" "historyStack u = historyStack s"
    using assms(2-5) by (auto simp: u)
  let ?c = "\<lparr>c_historyStack = historyStack u, c_historyIndex = historyIndex u,
            c_contextImage = contextImage u, c_prompt = prompt u,
            c_userMessage = \<lparr>msg_id = ''user-'' @ decimal now, msg_type = UserMsg,
               msg_prompt = Some (prompt u), msg_imageUrl = None, msg_mimeType = None,
               msg_contextImageUrl = map_option ctx_url (contextImage u)\<rparr>\<rparr>"
  have c: "closure_ok ?c" using ok by (simp add: closure_ok_def)
  note sl = slice_closure[OF c]
  show ?thesis
    unfolding handleEdit_accepts[OF ok(1-4)]
    using sl ok
    by (simp add: edit_fulfilled_def edit_finally_def Let_def canRedo_def handleRedo_def)
qed

lemma commit_after_undo_example:
  "historyIndex (handleUndo three_versions) = 1
   \<and> (\<exists>s1 c. handleEdit 5 (handleUndo three_versions) = (s1, Some c)
     \<and> historyStack (edit_fulfilled c ''DDDD'' ''image/png'' 9 s1)
          = [imgA, imgB, newImage ''DDDD'' ''image/png'']
     \<and> historyIndex (edit_fulfilled c ''DDDD'' ''image/png'' 9 s1) = 2
     \<and> \<not> canRedo (edit_fulfilled c ''DDDD'' ''image/png'' 9 s1)
     \<and> handleRedo (edit_fulfilled c ''DDDD'' ''image/png'' 9 s1)
          = edit_fulfilled c ''DDDD'' ''image/png'' 9 s1)"
proof -
  have h: "historyStack three_versions \<noteq> []" "0 \<le> historyIndex three_versions"
       "historyIndex three_versions < int (length (historyStack three_versions))"
       "trim (prompt three_versions) \<noteq> []" "\<not> isLoading three_versions"
    by (simp_all add: three_versions_def initial_def trim_blue)
  have u: "handleUndo three_versions = (handleUndo ^^ 1) three_versions" by simp
  have i: "historyIndex (handleUndo three_versions) = 1"
       "historyStack three_versions = [imgA, imgB, imgC]"
    by (simp_all add: three_versions_def handleUndo_def)
  from commit_after_undo[OF h u, of 5 "''DDDD''" "''image/png''" 9]
  show ?thesis by (auto simp: i)
qed

text \<open>
  C5. After every sequence of events of the component, started from the initial state
  (uploads, submissions and their settling in any order, undo, redo and the rest): when
  there are versions the cursor is at least 0 and below their number, and there are no
  versions exactly when no upload has been read successfully so far.
\<close>

theorem cursor_in_range:
  "(historyStack (app (run sys_initial es)) \<noteq> [] \<longrightarrow>
      0 \<le> historyIndex (app (run sys_initial es))
      \<and> historyIndex (app (run sys_initial es))
          < int (length (historyStack (app (run sys_initial es)))))
   \<and> ((historyStack (app (run sys_initial es)) = []) = (\<not> reset_happened sys_initial es))"
proof -
  have i: "sys_inv (run sys_initial es)" by (rule inv_run[OF inv_initial])
  have e: "historyStack (app sys_initial) = []" by (simp add: sys_initial_def initial_def)
  show ?thesis
    using i run_empty_iff[OF inv_initial, of es] e
    by (auto simp: sys_inv_def hist_ok_def)
qed

theorem cursor_in_range_witness:
  "historyStack (app (run sys_initial edit_then_undo)) \<noteq> []
   \<and> historyIndex (app (run sys_initial edit_then_undo)) = 0
   \<and> length (historyStack (app (run sys_initial edit_then_undo))) = 2
   \<and> reset_happened sys_initial edit_then_undo"
  using cursor_in_range[of edit_then_undo]
  by (simp add: edit_then_undo_def png_def eval_defs)

text \<open>
  C7. Whatever the state \<open>s\<close> before, the upload of an image file \<open>f\<close> whose read
  yields \<open>dataUrl\<close> leaves exactly one version, the uploaded image, with the cursor at
  0; the transcript afterwards is the one the same upload produces from the initial
  state, so nothing of the earlier history or chat remains.
\<close>

theorem upload_resets_history:
  assumes "startsWith (file_type f) ''image/''"
  shows "\<exists>s1. handleInitialImageUpload (Some f) s = (s1, Some f)
     \<and> historyStack (upload_fulfilled f dataUrl now s1)
          = [\<lparr>imageUrl = dataUrl, mimeType = file_type f\<rparr>]
     \<and> historyIndex (upload_fulfilled f dataUrl now s1) = 0
     \<and> chatHistory (upload_fulfilled f dataUrl now s1)
          = chatHistory (upload_fulfilled f dataUrl now initial)"
  using assms by (simp add: handleInitialImageUpload_def upload_fulfilled_def)

theorem upload_resets_history_witness:
  "\<exists>s1. handleInitialImageUpload (Some png) three_versions = (s1, Some png)
     \<and> historyStack (upload_fulfilled png ''data:image/png;base64,XXXX'' 7 s1)
          = [\<lparr>imageUrl = ''data:image/png;base64,XXXX'', mimeType = ''image/png''\<rparr>]
     \<and> historyIndex (upload_fulfilled png ''data:image/png;base64,XXXX'' 7 s1) = 0"
proof -
  have h: "startsWith (file_type png) ''image/''" by (simp add: png_def startsWith_def)
  have t: "file_type png = ''image/png''" by (simp add: png_def)
  from upload_resets_history[OF h, of three_versions "''data:image/png;base64,XXXX''" 7]
  show ?thesis unfolding t by blast
qed

section \<open>Submissions\<close>

text \<open>
  C2, evaluated at the failing run. The run \<open>dup_before\<close> goes through the page and
  leaves the transcript \<open>bot-1, user-5, bot-9\<close>. The next submission is made when the
  clock reads 5 again, so the message it appends is a second \<open>user-5\<close>. It fails, and
  the filter of the \<open>catch\<close> block removes both: the transcript is \<open>bot-1, bot-9\<close>, not
  what it was before the submission. Versions and cursor are what they were.
\<close>

theorem rollback_removes_earlier_entry:
  "ui_run sys_initial dup_failed = Some (run sys_initial dup_failed)
   \<and> chat_ids (run sys_initial dup_before) = [''bot-1'', ''user-5'', ''bot-9'']
   \<and> chat_ids (run sys_initial (dup_before @ [Submit 5]))
        = [''bot-1'', ''user-5'', ''bot-9'', ''user-5'']
   \<and> chat_ids (run sys_initial dup_failed) = [''bot-1'', ''bot-9'']
   \<and> historyStack (app (run sys_initial dup_failed))
        = historyStack (app (run sys_initial dup_before))
   \<and> historyIndex (app (run sys_initial dup_failed))
        = historyIndex (app (run sys_initial dup_before))"
  by (simp add: dup_before_def dup_failed_def chat_ids_def png_def eval_defs)

text \<open>
  What does hold, in whatever state the continuation runs: the \<open>catch\<close> and \<open>finally\<close>
  blocks leave versions and cursor alone, and the transcript afterwards is the
  transcript at that moment without the entries that have the captured id.
\<close>

lemma edit_rejected_any_state:
  "historyStack (edit_rejected c err z) = historyStack z
   \<and> historyIndex (edit_rejected c err z) = historyIndex z
   \<and> chatHistory (edit_rejected c err z)
        = filter (\<lambda>msg. msg_id msg \<noteq> msg_id (c_userMessage c)) (chatHistory z)"
  by (simp add: edit_rejected_def edit_finally_def)

text \<open>
  So when no entry of the transcript already has the id given to the new user message,
  and the continuation runs in the state the handler has left, the failure restores
  the transcript of before the submission.
\<close>

lemma failed_submit_rolls_back:
  assumes "0 \<le> historyIndex s" and "historyIndex s < int (length (historyStack s))"
      and "trim (prompt s) \<noteq> []" and "\<not> isLoading s"
      and "\<forall>m \<in> set (chatHistory s). msg_id m \<noteq> ''user-'' @ decimal now"
  shows "\<exists>s1 c. handleEdit now s = (s1, Some c)
     \<and> msg_id (c_userMessage c) = ''user-'' @ decimal now
     \<and> chatHistory s1 = chatHistory s @ [c_userMessage c]
     \<and> historyStack (edit_rejected c err s1) = historyStack s
     \<and> historyIndex (edit_rejected c err s1) = historyIndex s
     \<and> chatHistory (edit_rejected c err s1) = chatHistory s"
  unfolding handleEdit_accepts[OF assms(1-4)]
  using filter_fresh[OF assms(5)]
  by (simp add: edit_rejected_def edit_finally_def)

lemma failed_submit_rolls_back_example:
  "\<exists>s1 c. handleEdit 5 one_version = (s1, Some c)
     \<and> length (chatHistory s1) = 2
     \<and> historyStack (edit_rejected c NotAnError s1) = [imgA]
     \<and> historyIndex (edit_rejected c NotAnError s1) = 0
     \<and> chatHistory (edit_rejected c NotAnError s1) = chatHistory one_version"
proof -
  have h: "0 \<le> historyIndex one_version"
       "historyIndex one_version < int (length (historyStack one_version))"
       "trim (prompt one_version) \<noteq> []" "\<not> isLoading one_version"
    by (simp_all add: one_version_def initial_def trim_blue)
  have f: "\<forall>m \<in> set (chatHistory one_version). msg_id m \<noteq> ''user-'' @ decimal 5"
    by (simp add: one_version_def)
  have v: "historyStack one_version = [imgA]" "historyIndex one_version = 0"
       "length (chatHistory one_version) = 1"
    by (simp_all add: one_version_def)
  from failed_submit_rolls_back[OF h f, of NotAnError]
  show ?thesis by (auto simp: v)
qed

text \<open>
  C3. In a state with versions, the cursor on one of them, a prompt that is not blank
  and no loading in progress, a submission that succeeds appends to the transcript
  exactly two entries: first a user message with the submitted prompt, then a bot
  message with the image built from the result of \<open>editImage\<close>; afterwards the current
  image is that new image. The continuation runs in the state the handler has left,
  with nothing in between.
\<close>

theorem successful_submit:
  assumes "historyStack s \<noteq> []"
      and "0 \<le> historyIndex s" and "historyIndex s < int (length (historyStack s))"
      and "trim (prompt s) \<noteq> []" and "\<not> isLoading s"
  shows "\<exists>s1 c u v. handleEdit now s = (s1, Some c)
     \<and> chatHistory (edit_fulfilled c b m now' s1) = chatHistory s @ [u, v]
     \<and> msg_type u = UserMsg \<and> msg_prompt u = Some (prompt s)
     \<and> msg_type v = BotMsg
     \<and> msg_imageUrl v = Some (imageUrl (newImage b m))
     \<and> msg_mimeType v = Some (mimeType (newImage b m))
     \<and> currentImage (edit_fulfilled c b m now' s1) = Some (newImage b m)"
proof -
  let ?c = "\<lparr>c_historyStack = historyStack s, c_historyIndex = historyIndex s,
            c_contextImage = contextImage s, c_prompt = prompt s,
            c_userMessage = \<lparr>msg_id = ''user-'' @ decimal now, msg_type = UserMsg,
               msg_prompt = Some (prompt s), msg_imageUrl = None, msg_mimeType = None,
               msg_contextImageUrl = map_option ctx_url (contextImage s)\<rparr>\<rparr>"
  have c: "closure_ok ?c" using assms by (simp add: closure_ok_def)
  note sl = slice_closure[OF c]
  show ?thesis
    unfolding handleEdit_accepts[OF assms(2-5)]
    using sl
    by (simp add: edit_fulfilled_def edit_finally_def Let_def currentImage_def js_index_def
        newImage_def nth_append)
qed

theorem successful_submit_witness:
  "\<exists>s1 c u v. handleEdit 5 one_version = (s1, Some c)
     \<and> chatHistory (edit_fulfilled c ''BBBB'' ''image/png'' 9 s1) = chatHistory one_version @ [u, v]
     \<and> msg_type u = UserMsg \<and> msg_prompt u = Some ''make it blue''
     \<and> msg_type v = BotMsg
     \<and> msg_imageUrl v = Some ''data:image/png;base64,BBBB''
     \<and> currentImage (edit_fulfilled c ''BBBB'' ''image/png'' 9 s1) = Some imgB"
proof -
  have h: "historyStack one_version \<noteq> []" "0 \<le> historyIndex one_version"
       "historyIndex one_version < int (length (historyStack one_version))"
       "trim (prompt one_version) \<noteq> []" "\<not> isLoading one_version"
    by (simp_all add: one_version_def initial_def trim_blue)
  have v: "prompt one_version = ''make it blue''" "newImage ''BBBB''  ''image/png'' = imgB"
      "imageUrl imgB = ''data:image/png;base64,BBBB''"
    by (simp_all add: one_version_def newImage_def imgB_def)
  from successful_submit[OF h, of 5 "''BBBB''" "''image/png''" 9]
  show ?thesis unfolding v by blast
qed

text \<open>
  C6, evaluated at the failing run. The run \<open>two_calls_trace\<close> goes through the page.
  Before its last event one submission is still waiting for \<open>editImage\<close>, yet the
  upload that finished in between has reset the loading flag; the submission that
  follows passes the guard, appends its user message and issues a second call, so two
  calls are outstanding (neither closure has a context image to read first).
\<close>

theorem second_call_while_in_flight:
  "ui_run sys_initial two_calls_trace = Some (run sys_initial two_calls_trace)
   \<and> length (edits (run sys_initial two_calls_before)) = 1
   \<and> \<not> isLoading (app (run sys_initial two_calls_before))
   \<and> chat_ids (run sys_initial two_calls_before) = [''bot-7'']
   \<and> length (edits (run sys_initial two_calls_trace)) = 2
   \<and> map c_contextImage (edits (run sys_initial two_calls_trace)) = [None, None]
   \<and> chat_ids (run sys_initial two_calls_trace) = [''bot-7'', ''user-9'']"
  by (simp add: two_calls_trace_def two_calls_before_def chat_ids_def png_def jpg_def eval_defs)

text \<open>
  C8. A call of \<open>handleEdit\<close> with no base image (an empty history) or with a blank
  prompt returns before anything is appended or issued: no closure is registered, and
  the state afterwards is the state before with the error message set, so the
  history, the chat log and the context image are as they were.
\<close>

theorem handleEdit_precondition_rejected:
  "historyStack s = [] \<or> trim (prompt s) = [] \<Longrightarrow>
     handleEdit now s =
       (s\<lparr>error := Some ''Cannot edit without a base image and a prompt.''\<rparr>, None)"
  by (auto simp: handleEdit_def currentImage_def js_index_def)

theorem handleEdit_precondition_rejected_witness:
  "handleEdit 5 initial
     = (initial\<lparr>error := Some ''Cannot edit without a base image and a prompt.''\<rparr>, None)
   \<and> handleEdit 5 (one_version\<lparr>prompt := ''  ''\<rparr>)
     = (one_version\<lparr>prompt := ''  '',
          error := Some ''Cannot edit without a base image and a prompt.''\<rparr>, None)"
proof -
  have a: "historyStack initial = [] \<or> trim (prompt initial) = []"
    by (simp add: initial_def)
  have b: "historyStack (one_version\<lparr>prompt := ''  ''\<rparr>) = []
             \<or> trim (prompt (one_version\<lparr>prompt := ''  ''\<rparr>)) = []"
    by (simp add: trim_def js_whitespace_def)
  from handleEdit_precondition_rejected[OF a, of 5] handleEdit_precondition_rejected[OF b, of 5]
  show ?thesis by simp
qed

section \<open>The context image's object URL\<close>

text \<open>
  C4, evaluated at two failing runs, both through the page. In \<open>leak_trace\<close> a second
  context image is attached over the first and then discarded: \<open>blob:1\<close> and \<open>blob:2\<close>
  were created, only \<open>blob:2\<close> is revoked, and nothing holds \<open>blob:1\<close> any more. In
  \<open>double_trace\<close> the context image is discarded while its submission is in flight:
  \<open>blob:1\<close> is revoked by the discard and again by the \<open>finally\<close> block.
\<close>

theorem object_url_release_fails:
  "ui_run sys_initial leak_trace = Some (run sys_initial leak_trace)
   \<and> created (app (run sys_initial leak_trace)) = [''blob:1'', ''blob:2'']
   \<and> revoked (app (run sys_initial leak_trace)) = [''blob:2'']
   \<and> contextImage (app (run sys_initial leak_trace)) = None
   \<and> edits (run sys_initial leak_trace) = []
   \<and> ui_run sys_initial double_trace = Some (run sys_initial double_trace)
   \<and> created (app (run sys_initial double_trace)) = [''blob:1'']
   \<and> revoked (app (run sys_initial double_trace)) = [''blob:1'', ''blob:1'']"
  by (simp add: leak_trace_def double_trace_def png_def jpg_def eval_defs)

section \<open>The error message\<close>




section \<open>The transcript after an upload\<close>

text \<open>
  C10. After the upload of an image file \<open>f\<close> whose read yields \<open>dataUrl\<close>, from any
  state, the transcript consists of exactly one entry: a bot message whose image is
  the uploaded one, which is also the current image; and no context image is attached.
\<close>

theorem upload_resets_chat:
  assumes "startsWith (file_type f) ''image/''"
  shows "\<exists>s1 v. handleInitialImageUpload (Some f) s = (s1, Some f)
     \<and> chatHistory (upload_fulfilled f dataUrl now s1) = [v]
     \<and> msg_type v = BotMsg \<and> msg_imageUrl v = Some dataUrl
     \<and> msg_mimeType v = Some (file_type f)
     \<and> msg_imageUrl v = map_option imageUrl (currentImage (upload_fulfilled f dataUrl now s1))
     \<and> contextImage (upload_fulfilled f dataUrl now s1) = None"
  using assms
  by (simp add: handleInitialImageUpload_def upload_fulfilled_def currentImage_def js_index_def)

theorem upload_resets_chat_witness:
  "\<exists>s1 v. handleInitialImageUpload (Some png) with_context = (s1, Some png)
     \<and> chatHistory (upload_fulfilled png ''data:image/png;base64,XXXX'' 7 s1) = [v]
     \<and> msg_type v = BotMsg \<and> msg_imageUrl v = Some ''data:image/png;base64,XXXX''
     \<and> contextImage (upload_fulfilled png ''data:image/png;base64,XXXX'' 7 s1) = None"
proof -
  have h: "startsWith (file_type png) ''image/''" by (simp add: png_def startsWith_def)
  from upload_resets_chat[OF h, of with_context "''data:image/png;base64,XXXX''" 7]
  show ?thesis by blast
qed

end
